theory Spec2Isabelle
  imports Complex_Main
begin

section \<open>Order-flow plotting: the data model\<close>

text \<open>
  The repository consists of the single function \<open>plot_order_flow\<close> of
  \<^verbatim>\<open>order_book_simulations/utilities.py\<close>. It reads a sequence of order-book
  snapshots and issues calls to a plotting library.

  A Python number is an int or a float. A float result is modelled by the exact
  rational it approximates: the rounding of binary floating point, and with it the
  infinities and NaN, are not part of the model. What is part of the model are the
  exceptions that the arithmetic on the book raises (the divisions of lines 39 and 40
  and the shift of line 67), for which the kind of a number matters: an int that
  takes part in float arithmetic is converted first, and the conversion raises
  \<^verbatim>\<open>OverflowError\<close> from \<open>2^1024 - 2^970\<close> on, the least magnitude that rounds
  beyond the greatest float.
\<close>

datatype num = PyInt int | PyFloat rat

fun num_val :: "num \<Rightarrow> rat" where
  "num_val (PyInt i) = of_int i"
| "num_val (PyFloat r) = r"

definition float_limit :: rat where
  "float_limit = 179769313486231580793728971405303415079934132710037826936173778980444968292764750946649017977587207096330286416692887910946555547851940402630657488671505820681908902000708383676273854845817711531764475730270069855571366959622842914819860834936475292719074168444365510704342711559699508093042880177904174497792"

text \<open>Whether the conversion of an operand to float returns.\<close>

fun fits_float :: "num \<Rightarrow> bool" where
  "fits_float (PyInt i) = (\<bar>of_int i\<bar> < float_limit)"
| "fits_float (PyFloat r) = True"

text \<open>
  A Level is the Python list \<^verbatim>\<open>[time, price, volume, side]\<close>, read by the source
  through the indices 0 to 3. The volume is divided (lines 39 and 40), so it carries
  its kind. Times and prices are compared, sorted and handed on, which Python decides
  by value whatever the kinds, so they are modelled by their values; the one
  arithmetic on a time, the shift by a half of line 67, raises exactly when the value
  is beyond \<open>float_limit\<close>, which only an int can be.
\<close>

record level =
  time :: rat
  price :: rat
  volume :: num
  side :: string

text \<open>
  The exceptions the function's own statements can raise: the \<^verbatim>\<open>ValueError\<close> of
  unpacking too few values into three names, the \<^verbatim>\<open>ValueError\<close> of \<^verbatim>\<open>min\<close> or
  \<^verbatim>\<open>max\<close> of an empty sequence, the \<^verbatim>\<open>ZeroDivisionError\<close> of \<^verbatim>\<open>/\<close>, and the
  \<^verbatim>\<open>OverflowError\<close> of an int too large for a float.
\<close>

datatype py_error =
  UnpackValueError | EmptySequenceValueError | ZeroDivisionError | OverflowError

text \<open>
  The plotting library is modelled as a recorder: each call the function makes is one
  command, with the arguments that carry data (positions, extents, sizes, colour,
  text). What the library itself does with a call is outside the repository.
\<close>

datatype draw_cmd =
    Subplots
  | Bar rat rat rat rat string
      \<comment> \<open>\<^verbatim>\<open>ax.bar(x, height, width=, bottom=, color=)\<close>\<close>
  | Axhline rat
  | Fill_between "rat list" rat rat
      \<comment> \<open>\<^verbatim>\<open>ax.fill_between(xs, y1, y2)\<close>\<close>
  | Set_xlabel string
  | Set_ylabel string
  | Set_title string
  | Set_xlim rat rat
  | Plot "rat list" "rat list"
  | Scatter "rat list" "rat list" "rat list" string
      \<comment> \<open>\<^verbatim>\<open>ax.scatter(x, y, s=, color=)\<close>\<close>
  | Show

text \<open>
  The outcome of a call: the commands issued, in order, and the exception that ended
  the call, if any.
\<close>

record outcome =
  drawn :: "draw_cmd list"
  raised :: "py_error option"

section \<open>Step 1, lines 30 to 40: partition, unzip, normalise\<close>

text \<open>
  \<^verbatim>\<open>[item for sublist in book_state_sequence for item in sublist if item[3] == 'ask']\<close>
\<close>

definition ask_data :: "level list list \<Rightarrow> level list" where
  "ask_data book_state_sequence =
     concat (map (\<lambda>sublist. filter (\<lambda>item. side item = ''ask'') sublist) book_state_sequence)"

definition bid_data :: "level list list \<Rightarrow> level list" where
  "bid_data book_state_sequence =
     concat (map (\<lambda>sublist. filter (\<lambda>item. side item = ''bid'') sublist) book_state_sequence)"

text \<open>
  \<^verbatim>\<open>times, prices, volumes = zip(*[(d[0], d[1], d[2]) for d in data])\<close>: on an
  empty list \<^verbatim>\<open>zip()\<close> yields nothing and the unpacking into three names raises.
\<close>

definition unzip3 :: "level list \<Rightarrow> py_error + (rat list \<times> rat list \<times> num list)" where
  "unzip3 data =
     (if data = [] then Inl UnpackValueError
      else Inr (map time data, map price data, map volume data))"

text \<open>
  Python's \<^verbatim>\<open>max\<close> and \<^verbatim>\<open>min\<close> of a sequence compare by value (\<open>key\<close> reads the
  value) and keep the first of equal items: the item held is replaced only by one
  strictly greater, or strictly less.
\<close>

fun py_max :: "('a \<Rightarrow> rat) \<Rightarrow> 'a list \<Rightarrow> py_error + 'a" where
  "py_max key [] = Inl EmptySequenceValueError"
| "py_max key (x # xs) =
     Inr (fold (\<lambda>item maxitem. if key maxitem < key item then item else maxitem) xs x)"

fun py_min :: "('a \<Rightarrow> rat) \<Rightarrow> 'a list \<Rightarrow> py_error + 'a" where
  "py_min key [] = Inl EmptySequenceValueError"
| "py_min key (x # xs) =
     Inr (fold (\<lambda>item minitem. if key item < key minitem then item else minitem) xs x)"

text \<open>
  Python's true division \<^verbatim>\<open>a / b\<close>. Of two ints: a zero divisor raises, and so does
  a quotient that rounds beyond the greatest float. With a float operand: both
  operands are converted to float first, which raises for an int beyond the range,
  and only then a zero divisor raises. The result is a float.
\<close>

fun py_div :: "num \<Rightarrow> num \<Rightarrow> py_error + rat" where
  "py_div (PyInt x) (PyInt y) =
     (if y = 0 then Inl ZeroDivisionError
      else if float_limit \<le> \<bar>of_int x / of_int y\<bar> then Inl OverflowError
      else Inr (of_int x / of_int y))"
| "py_div a b =
     (if fits_float a \<and> fits_float b
      then (if num_val b = 0 then Inl ZeroDivisionError else Inr (num_val a / num_val b))
      else Inl OverflowError)"

text \<open>\<^verbatim>\<open>[v / max_volume for v in volumes]\<close>: the first failing division ends it.\<close>

fun norm_volumes :: "num list \<Rightarrow> num \<Rightarrow> py_error + rat list" where
  "norm_volumes [] m = Inr []"
| "norm_volumes (v # vs) m =
     (case py_div v m of
        Inl e \<Rightarrow> Inl e
      | Inr q \<Rightarrow> (case norm_volumes vs m of Inl e \<Rightarrow> Inl e | Inr qs \<Rightarrow> Inr (q # qs)))"

text \<open>The local variables that the drawing steps read.\<close>

record book =
  ask_times :: "rat list"
  ask_prices :: "rat list"
  ask_volumes :: "num list"
  bid_times :: "rat list"
  bid_prices :: "rat list"
  bid_volumes :: "num list"
  max_volume :: num
  norm_ask_volumes :: "rat list"
  norm_bid_volumes :: "rat list"

text \<open>
  Lines 34 to 40. \<^verbatim>\<open>max(max(ask_volumes), max(bid_volumes))\<close> is the \<^verbatim>\<open>max\<close> of
  the sequence of its two arguments.
\<close>

definition prepare :: "level list list \<Rightarrow> py_error + book" where
  "prepare book_state_sequence =
     (case unzip3 (ask_data book_state_sequence) of
        Inl e \<Rightarrow> Inl e
      | Inr (a_times, a_prices, a_volumes) \<Rightarrow>
     (case unzip3 (bid_data book_state_sequence) of
        Inl e \<Rightarrow> Inl e
      | Inr (b_times, b_prices, b_volumes) \<Rightarrow>
     (case py_max num_val a_volumes of
        Inl e \<Rightarrow> Inl e
      | Inr max_a \<Rightarrow>
     (case py_max num_val b_volumes of
        Inl e \<Rightarrow> Inl e
      | Inr max_b \<Rightarrow>
     (case py_max num_val [max_a, max_b] of
        Inl e \<Rightarrow> Inl e
      | Inr m \<Rightarrow>
     (case norm_volumes a_volumes m of
        Inl e \<Rightarrow> Inl e
      | Inr norm_a \<Rightarrow>
     (case norm_volumes b_volumes m of
        Inl e \<Rightarrow> Inl e
      | Inr norm_b \<Rightarrow>
        Inr \<lparr>ask_times = a_times, ask_prices = a_prices, ask_volumes = a_volumes,
             bid_times = b_times, bid_prices = b_prices, bid_volumes = b_volumes,
             max_volume = m,
             norm_ask_volumes = norm_a, norm_bid_volumes = norm_b\<rparr>)))))))"

section \<open>Step 1, lines 42 to 76: bars, gridlines, spread fill, axes\<close>

text \<open>
  \<^verbatim>\<open>for t, p, v in zip(ask_times, ask_prices, norm_ask_volumes):
      ax.bar(t, v, width=1, bottom=p, color='blue', alpha=0.6)\<close>
\<close>

definition ask_bars :: "book \<Rightarrow> draw_cmd list" where
  "ask_bars b =
     map (\<lambda>(t, p, v). Bar t v 1 p ''blue'')
       (zip (ask_times b) (zip (ask_prices b) (norm_ask_volumes b)))"

text \<open>The bids extend downward: \<^verbatim>\<open>ax.bar(t, -v, width=1, bottom=p, color='red', alpha=0.6)\<close>\<close>

definition bid_bars :: "book \<Rightarrow> draw_cmd list" where
  "bid_bars b =
     map (\<lambda>(t, p, v). Bar t (- v) 1 p ''red'')
       (zip (bid_times b) (zip (bid_prices b) (norm_bid_volumes b)))"

text \<open>\<^verbatim>\<open>prices = sorted(set(ask_prices + bid_prices))\<close>\<close>

definition prices :: "book \<Rightarrow> rat list" where
  "prices b = sort (remdups (ask_prices b @ bid_prices b))"

definition gridlines :: "book \<Rightarrow> draw_cmd list" where
  "gridlines b = map Axhline (prices b)"

text \<open>\<^verbatim>\<open>unique_times = sorted(set(ask_times + bid_times))\<close>\<close>

definition unique_times :: "book \<Rightarrow> rat list" where
  "unique_times b = sort (remdups (ask_times b @ bid_times b))"

text \<open>\<^verbatim>\<open>[p for time, p in zip(times, prices) if time == t]\<close>\<close>

definition prices_at_t :: "rat list \<Rightarrow> rat list \<Rightarrow> rat \<Rightarrow> rat list" where
  "prices_at_t ts ps t = map snd (filter (\<lambda>(tm, p). tm = t) (zip ts ps))"

text \<open>
  \<^verbatim>\<open>t - 1/2\<close> and \<^verbatim>\<open>t + 1/2\<close>: the second operand is the float 0.5, so an int
  \<open>t\<close> is converted to float, and the conversion raises from \<open>float_limit\<close> on. A
  float is below that limit and is not converted.
\<close>

definition py_add_float :: "rat \<Rightarrow> rat \<Rightarrow> py_error + rat" where
  "py_add_float t h = (if float_limit \<le> \<bar>t\<bar> then Inl OverflowError else Inr (t + h))"

text \<open>
  The body of the loop over \<open>unique_times\<close>. Both lists are non-empty under the guard,
  where Python's \<^verbatim>\<open>min\<close> and \<^verbatim>\<open>max\<close> are the least and the greatest element;
  they are taken before the argument list of \<^verbatim>\<open>fill_between\<close> is built.
\<close>

definition spread_fill :: "book \<Rightarrow> rat \<Rightarrow> py_error + draw_cmd list" where
  "spread_fill b t =
     (let ask_prices_at_t = prices_at_t (ask_times b) (ask_prices b) t;
          bid_prices_at_t = prices_at_t (bid_times b) (bid_prices b) t
      in if ask_prices_at_t \<noteq> [] \<and> bid_prices_at_t \<noteq> []
         then (case py_add_float t (- (1 / 2)) of
                 Inl e \<Rightarrow> Inl e
               | Inr x1 \<Rightarrow>
                   (case py_add_float t (1 / 2) of
                      Inl e \<Rightarrow> Inl e
                    | Inr x2 \<Rightarrow>
                        Inr [Fill_between [x1, x2]
                               (Max (set bid_prices_at_t)) (Min (set ask_prices_at_t))]))
         else Inr [])"

text \<open>
  The loop: the commands issued, and the exception that ended it, if any.
\<close>

fun spread_fills_loop :: "book \<Rightarrow> rat list \<Rightarrow> draw_cmd list \<times> py_error option" where
  "spread_fills_loop b [] = ([], None)"
| "spread_fills_loop b (t # ts) =
     (case spread_fill b t of
        Inl e \<Rightarrow> ([], Some e)
      | Inr cs \<Rightarrow> (case spread_fills_loop b ts of (ds, r) \<Rightarrow> (cs @ ds, r)))"

definition spread_fills :: "book \<Rightarrow> draw_cmd list \<times> py_error option" where
  "spread_fills b = spread_fills_loop b (unique_times b)"

text \<open>\<^verbatim>\<open>ax.set_xlim(min(ask_times + bid_times), max(ask_times + bid_times))\<close>\<close>

definition set_xlim :: "book \<Rightarrow> py_error + draw_cmd" where
  "set_xlim b =
     (case py_min (\<lambda>t. t) (ask_times b @ bid_times b) of
        Inl e \<Rightarrow> Inl e
      | Inr lo \<Rightarrow>
          (case py_max (\<lambda>t. t) (ask_times b @ bid_times b) of
             Inl e \<Rightarrow> Inl e
           | Inr hi \<Rightarrow> Inr (Set_xlim lo hi)))"

text \<open>Lines 42 to 76 on the prepared book.\<close>

definition draw_book :: "book \<Rightarrow> outcome" where
  "draw_book b =
     (case spread_fills b of
        (fs, Some e) \<Rightarrow>
          \<lparr>drawn = Subplots # ask_bars b @ bid_bars b @ gridlines b @ fs, raised = Some e\<rparr>
      | (fs, None) \<Rightarrow>
          (case set_xlim b of
             Inl e \<Rightarrow>
               \<lparr>drawn = Subplots # ask_bars b @ bid_bars b @ gridlines b @ fs
                   @ [Set_xlabel ''Time'', Set_ylabel ''Price'', Set_title ''Order Flow''],
                raised = Some e\<rparr>
           | Inr xlim \<Rightarrow>
               \<lparr>drawn = Subplots # ask_bars b @ bid_bars b @ gridlines b @ fs
                   @ [Set_xlabel ''Time'', Set_ylabel ''Price'', Set_title ''Order Flow'']
                   @ [xlim],
                raised = None\<rparr>))"

section \<open>Step 2, lines 80 to 87: the price line and the trade markers\<close>

text \<open>Python's truth value of an optional list: \<^verbatim>\<open>None\<close> and \<^verbatim>\<open>[]\<close> are false.\<close>

definition truthy :: "'a list option \<Rightarrow> bool" where
  "truthy xo = (case xo of None \<Rightarrow> False | Some xs \<Rightarrow> xs \<noteq> [])"

definition seq :: "'a list option \<Rightarrow> 'a list" where
  "seq xo = (case xo of None \<Rightarrow> [] | Some xs \<Rightarrow> xs)"

text \<open>
  \<^verbatim>\<open>[val * 20 for val in [v * b for v, b in zip(volumes_sequence, flags)] ]\<close>.
  The trade sequences are modelled by their values. With the flags of the docstring,
  the ints 0 and 1, these products raise nothing: an int volume is multiplied
  exactly, and beside a float volume it is the flag, or 20, that is converted.
\<close>

definition marker_sizes :: "rat list \<Rightarrow> rat list \<Rightarrow> rat list" where
  "marker_sizes volumes flags =
     map (\<lambda>val. val * 20) (map (\<lambda>(v, f). v * f) (zip volumes flags))"

text \<open>
  \<^verbatim>\<open>x, y = zip(*[ [i + 1, v] for (i, v) in enumerate(price_sequence)])\<close>, reached
  with a non-empty \<open>price_sequence\<close> only, so that the unpacking gets its two values.
\<close>

definition trade_overlay ::
  "rat list option \<Rightarrow> rat list option \<Rightarrow> rat list option \<Rightarrow> rat list option \<Rightarrow> draw_cmd list"
where
  "trade_overlay price_sequence volumes_sequence buy_sequence sell_sequence =
     (if truthy price_sequence then
        (let pairs = map (\<lambda>(i, v). (rat_of_nat i + 1, v)) (enumerate 0 (seq price_sequence));
             x = map fst pairs;
             y = map snd pairs
         in Plot x y #
            (if truthy volumes_sequence \<and> truthy buy_sequence \<and> truthy sell_sequence then
               [Scatter x y (marker_sizes (seq volumes_sequence) (seq buy_sequence)) ''green'',
                Scatter x y (marker_sizes (seq volumes_sequence) (seq sell_sequence)) ''red'']
             else []))
      else [])"

section \<open>The whole function\<close>

definition plot_order_flow ::
  "level list list \<Rightarrow> rat list option \<Rightarrow> rat list option \<Rightarrow> rat list option
     \<Rightarrow> rat list option \<Rightarrow> outcome"
where
  "plot_order_flow book_state_sequence price_sequence volumes_sequence buy_sequence sell_sequence =
     (case prepare book_state_sequence of
        Inl e \<Rightarrow> \<lparr>drawn = [], raised = Some e\<rparr>
      | Inr b \<Rightarrow>
          (case raised (draw_book b) of
             Some e \<Rightarrow> draw_book b
           | None \<Rightarrow>
               \<lparr>drawn = drawn (draw_book b)
                   @ trade_overlay price_sequence volumes_sequence buy_sequence sell_sequence
                   @ [Show],
                raised = None\<rparr>))"

section \<open>Vocabulary for stating properties\<close>

text \<open>The greatest value of a volume over all ask and bid Levels.\<close>

definition global_max_volume :: "level list list \<Rightarrow> rat" where
  "global_max_volume bss = Max ((\<lambda>d. num_val (volume d)) ` set (ask_data bss @ bid_data bss))"

text \<open>The books on which the call with no trade sequence raises nothing.\<close>

definition valid_book :: "level list list \<Rightarrow> bool" where
  "valid_book bss \<longleftrightarrow> raised (plot_order_flow bss None None None None) = None"

text \<open>
  Reading a list of commands: the filled regions, the gridline prices, the bars, the
  scatter calls and the line plots, each in the order of the calls.
\<close>

definition fills :: "draw_cmd list \<Rightarrow> (rat list \<times> rat \<times> rat) list" where
  "fills cmds =
     concat (map (\<lambda>c. case c of Fill_between xs lo hi \<Rightarrow> [(xs, lo, hi)] | _ \<Rightarrow> []) cmds)"

definition gridline_prices :: "draw_cmd list \<Rightarrow> rat list" where
  "gridline_prices cmds = concat (map (\<lambda>c. case c of Axhline p \<Rightarrow> [p] | _ \<Rightarrow> []) cmds)"

definition bars :: "draw_cmd list \<Rightarrow> (rat \<times> rat \<times> rat \<times> rat \<times> string) list" where
  "bars cmds =
     concat (map (\<lambda>c. case c of Bar x h w base col \<Rightarrow> [(x, h, w, base, col)] | _ \<Rightarrow> []) cmds)"

definition scatters :: "draw_cmd list \<Rightarrow> (rat list \<times> rat list \<times> rat list \<times> string) list" where
  "scatters cmds =
     concat (map (\<lambda>c. case c of Scatter x y s col \<Rightarrow> [(x, y, s, col)] | _ \<Rightarrow> []) cmds)"

definition plots :: "draw_cmd list \<Rightarrow> (rat list \<times> rat list) list" where
  "plots cmds = concat (map (\<lambda>c. case c of Plot x y \<Rightarrow> [(x, y)] | _ \<Rightarrow> []) cmds)"

text \<open>
  Concrete books: the two-step example of the specification, a book whose volumes are
  all zero, and a crossed book (best bid 102 above best ask 100 at time 1) with a
  second time step that has an ask only.
\<close>

definition example_book :: "level list list" where
  "example_book =
     [ [\<lparr>time = 1, price = 101, volume = PyInt 2, side = ''ask''\<rparr>,
       \<lparr>time = 1, price = 99, volume = PyInt 5, side = ''bid''\<rparr>],
      [\<lparr>time = 2, price = 101, volume = PyInt 4, side = ''ask''\<rparr>,
       \<lparr>time = 2, price = 99, volume = PyInt 5, side = ''bid''\<rparr>] ]"

definition zero_volume_book :: "level list list" where
  "zero_volume_book =
     [ [\<lparr>time = 1, price = 101, volume = PyInt 0, side = ''ask''\<rparr>,
       \<lparr>time = 1, price = 99, volume = PyInt 0, side = ''bid''\<rparr>] ]"

definition crossed_book :: "level list list" where
  "crossed_book =
     [ [\<lparr>time = 1, price = 100, volume = PyInt 2, side = ''ask''\<rparr>,
       \<lparr>time = 1, price = 102, volume = PyFloat 3, side = ''bid''\<rparr>,
       \<lparr>time = 2, price = 105, volume = PyInt 3, side = ''ask''\<rparr>] ]"

text \<open>
  The int \<open>10^400\<close>, a book whose ask volume is that int and whose bid volume is
  the float 1.5, and a book at that time.
\<close>

definition huge :: int where
  "huge = 10000000000000000000000000000000000000000000000000000000000000000000000000000000000000000000000000000000000000000000000000000000000000000000000000000000000000000000000000000000000000000000000000000000000000000000000000000000000000000000000000000000000000000000000000000000000000000000000000000000000000000000000000000000000000000000000000000000000000000000000000000000000000000000000000000000000000000"

definition huge_volume_book :: "level list list" where
  "huge_volume_book =
     [ [\<lparr>time = 1, price = 101, volume = PyInt huge, side = ''ask''\<rparr>,
       \<lparr>time = 1, price = 99, volume = PyFloat (3 / 2), side = ''bid''\<rparr>] ]"

definition huge_time_book :: "level list list" where
  "huge_time_book =
     [ [\<lparr>time = of_int huge, price = 101, volume = PyInt 2, side = ''ask''\<rparr>,
       \<lparr>time = of_int huge, price = 99, volume = PyInt 5, side = ''bid''\<rparr>] ]"

text \<open>
  The failing example of the specification (no bid side), the example book with two
  Levels added whose tag is neither \<^verbatim>\<open>'ask'\<close> nor \<^verbatim>\<open>'bid'\<close>, and the example
  trade series.
\<close>

definition ask_only_book :: "level list list" where
  "ask_only_book = [ [\<lparr>time = 1, price = 101, volume = PyInt 0, side = ''ask''\<rparr>] ]"

definition mixed_book :: "level list list" where
  "mixed_book =
     [ [\<lparr>time = 1, price = 101, volume = PyInt 2, side = ''ask''\<rparr>,
       \<lparr>time = 7, price = 500, volume = PyInt 1000, side = ''Ask''\<rparr>,
       \<lparr>time = 1, price = 99, volume = PyInt 5, side = ''bid''\<rparr>],
      [\<lparr>time = 2, price = 101, volume = PyInt 4, side = ''ask''\<rparr>,
       \<lparr>time = 2, price = 99, volume = PyInt 5, side = ''bid''\<rparr>,
       \<lparr>time = 0, price = 1, volume = PyInt 0, side = []\<rparr>] ]"





section \<open>Lines 30 to 40: when they raise, and what they compute\<close>

lemma float_limit_eq: "float_limit = 2 ^ 1024 - 2 ^ 970"
  by (simp add: float_limit_def)

lemma huge_eq: "huge = 10 ^ 400"
  by (simp add: huge_def)

lemma float_limit_pos: "0 < float_limit"
  by (simp add: float_limit_def)

lemma fold_max_key:
  "fold (\<lambda>item maxitem. if key maxitem < key item then item else maxitem) xs x \<in> set (x # xs)
   \<and> key (fold (\<lambda>item maxitem. if key maxitem < key item then item else maxitem) xs x)
       = Max (key ` set (x # xs))"
proof (induction xs arbitrary: x)
  case Nil
  then show ?case by simp
next
  case (Cons y ys)
  let ?z = "if key x < key y then y else x"
  have k: "key ?z = max (key x) (key y)" by (auto simp: max_def)
  have m: "Max (key ` set (?z # ys)) = Max (key ` set (x # y # ys))"
  proof (cases "ys = []")
    case True
    then show ?thesis using k by (simp add: max.commute)
  next
    case False
    then have "Max (key ` set (?z # ys)) = max (key ?z) (Max (key ` set ys))" by simp
    also have "\<dots> = max (key x) (max (key y) (Max (key ` set ys)))"
      unfolding k by (simp add: max.assoc)
    also have "\<dots> = Max (key ` set (x # y # ys))" using False by simp
    finally show ?thesis .
  qed
  from Cons.IH [of ?z] m show ?case by auto
qed

lemma fold_min_key:
  "fold (\<lambda>item minitem. if key item < key minitem then item else minitem) xs x \<in> set (x # xs)
   \<and> key (fold (\<lambda>item minitem. if key item < key minitem then item else minitem) xs x)
       = Min (key ` set (x # xs))"
proof (induction xs arbitrary: x)
  case Nil
  then show ?case by simp
next
  case (Cons y ys)
  let ?z = "if key y < key x then y else x"
  have k: "key ?z = min (key x) (key y)" by (auto simp: min_def)
  have m: "Min (key ` set (?z # ys)) = Min (key ` set (x # y # ys))"
  proof (cases "ys = []")
    case True
    then show ?thesis using k by (simp add: min.commute)
  next
    case False
    then have "Min (key ` set (?z # ys)) = min (key ?z) (Min (key ` set ys))" by simp
    also have "\<dots> = min (key x) (min (key y) (Min (key ` set ys)))"
      unfolding k by (simp add: min.assoc)
    also have "\<dots> = Min (key ` set (x # y # ys))" using False by simp
    finally show ?thesis .
  qed
  from Cons.IH [of ?z] m show ?case by auto
qed

lemma py_max_Inr:
  assumes "py_max key xs = Inr m"
  shows "m \<in> set xs \<and> key m = Max (key ` set xs)"
proof (cases xs)
  case Nil
  with assms show ?thesis by simp
next
  case (Cons a list)
  with assms fold_max_key [of key list a] show ?thesis by auto
qed

lemma py_max_nonempty: "xs \<noteq> [] \<Longrightarrow> \<exists>m. py_max key xs = Inr m"
  by (cases xs) simp_all

lemma py_max_times: "xs \<noteq> [] \<Longrightarrow> py_max (\<lambda>t. t) xs = Inr (Max (set xs))"
  using py_max_nonempty [of xs "\<lambda>t. t"] py_max_Inr [of "\<lambda>t. t" xs] by auto

lemma py_min_times: "xs \<noteq> [] \<Longrightarrow> py_min (\<lambda>t. t) xs = Inr (Min (set xs))"
proof (cases xs)
  case Nil
  then show "xs \<noteq> [] \<Longrightarrow> ?thesis" by simp
next
  case (Cons a list)
  then show ?thesis using fold_min_key [of "\<lambda>t. t" list a] by simp
qed

lemma py_div_Inr:
  assumes "py_div a b = Inr q"
  shows "num_val b \<noteq> 0 \<and> q = num_val a / num_val b"
  using assms by (cases a; cases b) (auto split: if_splits)

lemma int_quotient_le:
  assumes "y \<noteq> 0"
  shows "\<bar>rat_of_int x / rat_of_int y\<bar> \<le> \<bar>rat_of_int x\<bar>"
proof -
  have "1 \<le> \<bar>y\<bar>" using assms by simp
  then have "(1::rat) \<le> \<bar>rat_of_int y\<bar>"
    by (metis of_int_1 of_int_abs of_int_le_iff)
  then have "\<bar>rat_of_int x\<bar> / \<bar>rat_of_int y\<bar> \<le> \<bar>rat_of_int x\<bar> / 1"
    by (intro divide_left_mono) simp_all
  then show ?thesis by (simp add: abs_divide)
qed

lemma py_div_fits:
  assumes "fits_float a" and "fits_float b" and "num_val b \<noteq> 0"
  shows "py_div a b = Inr (num_val a / num_val b)"
proof (cases a)
  case (PyInt x)
  show ?thesis
  proof (cases b)
    case (PyInt y)
    have y: "y \<noteq> 0" using assms(3) PyInt by simp
    have "\<bar>rat_of_int x / rat_of_int y\<bar> < float_limit"
      using int_quotient_le [OF y, of x] assms(1) \<open>a = PyInt x\<close> by simp
    then show ?thesis using y PyInt \<open>a = PyInt x\<close> by simp
  next
    case (PyFloat r)
    then show ?thesis using assms \<open>a = PyInt x\<close> by simp
  qed
next
  case (PyFloat r)
  then show ?thesis using assms by simp
qed

lemma py_div_zero:
  assumes "num_val a = 0" and "num_val b = 0"
  shows "py_div a b = Inl ZeroDivisionError"
  using assms float_limit_pos by (cases a; cases b) simp_all

lemma norm_volumes_Inr:
  "norm_volumes vs m = Inr qs \<Longrightarrow>
     qs = map (\<lambda>v. num_val v / num_val m) vs \<and> (vs \<noteq> [] \<longrightarrow> num_val m \<noteq> 0)"
proof (induction vs arbitrary: qs)
  case Nil
  then show ?case by simp
next
  case (Cons v vs)
  from Cons.prems obtain q qs' where
    q: "py_div v m = Inr q" and r: "norm_volumes vs m = Inr qs'" and e: "qs = q # qs'"
    by (auto split: sum.splits)
  from py_div_Inr [OF q] Cons.IH [OF r] e show ?case by simp
qed

lemma norm_volumes_fits:
  "\<forall>v \<in> set vs. fits_float v \<Longrightarrow> fits_float m \<Longrightarrow> num_val m \<noteq> 0 \<Longrightarrow>
     norm_volumes vs m = Inr (map (\<lambda>v. num_val v / num_val m) vs)"
  by (induction vs) (simp_all add: py_div_fits)

lemma norm_volumes_zero:
  "vs \<noteq> [] \<Longrightarrow> \<forall>v \<in> set vs. num_val v = 0 \<Longrightarrow> num_val m = 0 \<Longrightarrow>
     norm_volumes vs m = Inl ZeroDivisionError"
  by (cases vs) (simp_all add: py_div_zero)

lemma prepare_no_asks: "ask_data bss = [] \<Longrightarrow> prepare bss = Inl UnpackValueError"
  by (simp add: prepare_def unzip3_def)

lemma prepare_no_bids: "bid_data bss = [] \<Longrightarrow> prepare bss = Inl UnpackValueError"
  by (simp add: prepare_def unzip3_def)

text \<open>
  The local maximum \<open>m\<close> of line 38 is one of the volumes, and its value is the greatest.
\<close>

lemma max_volume_steps:
  assumes "ask_data bss \<noteq> []" and "bid_data bss \<noteq> []"
  shows "\<exists>max_a max_b m.
           py_max num_val (map volume (ask_data bss)) = Inr max_a
           \<and> py_max num_val (map volume (bid_data bss)) = Inr max_b
           \<and> py_max num_val [max_a, max_b] = Inr m
           \<and> m \<in> volume ` set (ask_data bss @ bid_data bss)
           \<and> num_val m = global_max_volume bss"
proof -
  from assms obtain max_a max_b where
    a: "py_max num_val (map volume (ask_data bss)) = Inr max_a" and
    b: "py_max num_val (map volume (bid_data bss)) = Inr max_b"
    using py_max_nonempty [of "map volume (ask_data bss)" num_val]
      py_max_nonempty [of "map volume (bid_data bss)" num_val] by auto
  obtain m where m: "py_max num_val [max_a, max_b] = Inr m"
    using py_max_nonempty [of "[max_a, max_b]" num_val] by auto
  note A = py_max_Inr [OF a] and B = py_max_Inr [OF b] and M = py_max_Inr [OF m]
  have in_set: "m \<in> volume ` set (ask_data bss @ bid_data bss)"
    using A B M by auto
  have "num_val m = max (num_val max_a) (num_val max_b)"
    using M by simp
  also have "\<dots> = max (Max (num_val ` set (map volume (ask_data bss))))
                       (Max (num_val ` set (map volume (bid_data bss))))"
    using A B by simp
  also have "\<dots> = Max (num_val ` set (map volume (ask_data bss))
                        \<union> num_val ` set (map volume (bid_data bss)))"
    using assms by (intro Max_Un [symmetric]) simp_all
  also have "\<dots> = global_max_volume bss"
    by (simp add: global_max_volume_def image_Un image_image)
  finally show ?thesis using a b m in_set by blast
qed

lemma prepare_Inr:
  assumes "prepare bss = Inr b"
  shows "ask_data bss \<noteq> [] \<and> bid_data bss \<noteq> [] \<and> global_max_volume bss \<noteq> 0
         \<and> num_val (max_volume b) = global_max_volume bss
         \<and> ask_times b = map time (ask_data bss) \<and> ask_prices b = map price (ask_data bss)
         \<and> bid_times b = map time (bid_data bss) \<and> bid_prices b = map price (bid_data bss)
         \<and> norm_ask_volumes b
             = map (\<lambda>d. num_val (volume d) / global_max_volume bss) (ask_data bss)
         \<and> norm_bid_volumes b
             = map (\<lambda>d. num_val (volume d) / global_max_volume bss) (bid_data bss)"
proof -
  have a: "ask_data bss \<noteq> []" and bd: "bid_data bss \<noteq> []"
    using assms prepare_no_asks [of bss] prepare_no_bids [of bss] by auto
  from max_volume_steps [OF a bd] obtain max_a max_b m where
    s: "py_max num_val (map volume (ask_data bss)) = Inr max_a"
       "py_max num_val (map volume (bid_data bss)) = Inr max_b"
       "py_max num_val [max_a, max_b] = Inr m"
       "num_val m = global_max_volume bss"
    by blast
  from assms a bd s obtain norm_a norm_b where
    n: "norm_volumes (map volume (ask_data bss)) m = Inr norm_a"
       "norm_volumes (map volume (bid_data bss)) m = Inr norm_b" and
    b: "b = \<lparr>ask_times = map time (ask_data bss), ask_prices = map price (ask_data bss),
             ask_volumes = map volume (ask_data bss),
             bid_times = map time (bid_data bss), bid_prices = map price (bid_data bss),
             bid_volumes = map volume (bid_data bss),
             max_volume = m, norm_ask_volumes = norm_a, norm_bid_volumes = norm_b\<rparr>"
    by (auto simp: prepare_def unzip3_def split: sum.splits)
  from norm_volumes_Inr [OF n(1)] norm_volumes_Inr [OF n(2)] a s(4)
  have "global_max_volume bss \<noteq> 0"
       "norm_a = map (\<lambda>d. num_val (volume d) / global_max_volume bss) (ask_data bss)"
       "norm_b = map (\<lambda>d. num_val (volume d) / global_max_volume bss) (bid_data bss)"
    by (simp_all add: comp_def)
  with a bd s(4) b show ?thesis by simp
qed

lemma prepare_fits:
  assumes "ask_data bss \<noteq> []" and "bid_data bss \<noteq> []" and "global_max_volume bss \<noteq> 0"
    and "\<forall>d \<in> set (ask_data bss @ bid_data bss). fits_float (volume d)"
  shows "\<exists>b. prepare bss = Inr b"
proof -
  from max_volume_steps [OF assms(1,2)] obtain max_a max_b m where
    s: "py_max num_val (map volume (ask_data bss)) = Inr max_a"
       "py_max num_val (map volume (bid_data bss)) = Inr max_b"
       "py_max num_val [max_a, max_b] = Inr m"
       "m \<in> volume ` set (ask_data bss @ bid_data bss)"
       "num_val m = global_max_volume bss"
    by blast
  have fm: "fits_float m" using s(4) assms(4) by auto
  have nz: "num_val m \<noteq> 0" using s(5) assms(3) by simp
  have na: "norm_volumes (map volume (ask_data bss)) m
              = Inr (map (\<lambda>v. num_val v / num_val m) (map volume (ask_data bss)))"
    using assms(4) fm nz by (intro norm_volumes_fits) auto
  have nb: "norm_volumes (map volume (bid_data bss)) m
              = Inr (map (\<lambda>v. num_val v / num_val m) (map volume (bid_data bss)))"
    using assms(4) fm nz by (intro norm_volumes_fits) auto
  show ?thesis
    using assms(1,2) s(1,2,3) na nb by (simp add: prepare_def unzip3_def)
qed

lemma prepare_zero:
  assumes "ask_data bss \<noteq> []" and "bid_data bss \<noteq> []"
    and "\<forall>d \<in> set (ask_data bss @ bid_data bss). num_val (volume d) = 0"
  shows "prepare bss = Inl ZeroDivisionError"
proof -
  from max_volume_steps [OF assms(1,2)] obtain max_a max_b m where
    s: "py_max num_val (map volume (ask_data bss)) = Inr max_a"
       "py_max num_val (map volume (bid_data bss)) = Inr max_b"
       "py_max num_val [max_a, max_b] = Inr m"
       "m \<in> volume ` set (ask_data bss @ bid_data bss)"
    by blast
  have z: "num_val m = 0" using s(4) assms(3) by auto
  have "norm_volumes (map volume (ask_data bss)) m = Inl ZeroDivisionError"
    using assms(1,3) z by (intro norm_volumes_zero) auto
  then show ?thesis
    using assms(1,2) s(1,2,3) by (simp add: prepare_def unzip3_def)
qed

section \<open>Lines 42 to 76: what is drawn\<close>

lemma set_xlim_ok:
  "ask_times b \<noteq> [] \<Longrightarrow>
   set_xlim b = Inr (Set_xlim (Min (set (ask_times b @ bid_times b)))
                              (Max (set (ask_times b @ bid_times b))))"
  by (simp add: set_xlim_def py_min_times py_max_times)

lemma spread_fill_only_fills:
  "spread_fill b t = Inr cs \<Longrightarrow> c \<in> set cs \<Longrightarrow> \<exists>xs lo hi. c = Fill_between xs lo hi"
  by (auto simp: spread_fill_def Let_def split: if_splits sum.splits)

lemma spread_fills_loop_only_fills:
  "c \<in> set (fst (spread_fills_loop b ts)) \<Longrightarrow> \<exists>xs lo hi. c = Fill_between xs lo hi"
proof (induction ts)
  case Nil
  then show ?case by simp
next
  case (Cons t ts)
  then show ?case
    by (auto split: sum.splits prod.splits dest: spread_fill_only_fills)
qed

lemma spread_fills_only_fills:
  "c \<in> set (fst (spread_fills b)) \<Longrightarrow> \<exists>xs lo hi. c = Fill_between xs lo hi"
  unfolding spread_fills_def by (rule spread_fills_loop_only_fills)

text \<open>
  The commands of \<open>draw_book\<close>: the bars, the gridlines and the fills of the loop come
  first; an exception can only cut what follows them.
\<close>

lemma drawn_draw_book:
  "\<exists>rest. drawn (draw_book b)
            = Subplots # ask_bars b @ bid_bars b @ gridlines b @ fst (spread_fills b) @ rest
          \<and> set rest \<subseteq> {Set_xlabel ''Time'', Set_ylabel ''Price'', Set_title ''Order Flow''}
                        \<union> {c. \<exists>lo hi. c = Set_xlim lo hi}"
  by (cases "spread_fills b") (auto simp: draw_book_def split: option.splits sum.splits
        simp: set_xlim_def)

lemma gridline_prices_fills: "gridline_prices (fst (spread_fills b)) = []"
  by (auto simp: gridline_prices_def dest!: spread_fills_only_fills)


lemma scatters_fills: "scatters (fst (spread_fills b)) = []"
  by (auto simp: scatters_def dest!: spread_fills_only_fills)

lemma plots_fills: "plots (fst (spread_fills b)) = []"
  by (auto simp: plots_def dest!: spread_fills_only_fills)

lemma gridline_prices_draw_book: "gridline_prices (drawn (draw_book b)) = prices b"
proof -
  from drawn_draw_book [of b] obtain rest where
    d: "drawn (draw_book b)
          = Subplots # ask_bars b @ bid_bars b @ gridlines b @ fst (spread_fills b) @ rest" and
    r: "set rest \<subseteq> {Set_xlabel ''Time'', Set_ylabel ''Price'', Set_title ''Order Flow''}
                        \<union> {c. \<exists>lo hi. c = Set_xlim lo hi}"
    by blast
  have "gridline_prices rest = []"
    using r by (auto simp: gridline_prices_def)
  moreover have "gridline_prices (ask_bars b) = []" "gridline_prices (bid_bars b) = []"
    by (auto simp: gridline_prices_def ask_bars_def bid_bars_def)
  moreover have "gridline_prices (gridlines b) = prices b"
    by (simp add: gridline_prices_def gridlines_def comp_def)
  moreover have "gridline_prices (drawn (draw_book b)) =
      gridline_prices (ask_bars b) @ gridline_prices (bid_bars b)
        @ gridline_prices (gridlines b) @ gridline_prices (fst (spread_fills b))
        @ gridline_prices rest"
    unfolding d by (simp add: gridline_prices_def)
  ultimately show ?thesis by (simp add: gridline_prices_fills)
qed


lemma fills_draw_book: "fills (drawn (draw_book b)) = fills (fst (spread_fills b))"
proof -
  from drawn_draw_book [of b] obtain rest where
    d: "drawn (draw_book b)
          = Subplots # ask_bars b @ bid_bars b @ gridlines b @ fst (spread_fills b) @ rest" and
    r: "set rest \<subseteq> {Set_xlabel ''Time'', Set_ylabel ''Price'', Set_title ''Order Flow''}
                        \<union> {c. \<exists>lo hi. c = Set_xlim lo hi}"
    by blast
  have "fills rest = []"
    using r by (auto simp: fills_def)
  moreover have "fills (ask_bars b) = []" "fills (bid_bars b) = []" "fills (gridlines b) = []"
    by (auto simp: fills_def ask_bars_def bid_bars_def gridlines_def)
  moreover have "fills (drawn (draw_book b)) =
      fills (ask_bars b) @ fills (bid_bars b) @ fills (gridlines b)
        @ fills (fst (spread_fills b)) @ fills rest"
    unfolding d by (simp add: fills_def)
  ultimately show ?thesis by simp
qed

lemma scatters_draw_book: "scatters (drawn (draw_book b)) = []"
proof -
  from drawn_draw_book [of b] obtain rest where
    d: "drawn (draw_book b)
          = Subplots # ask_bars b @ bid_bars b @ gridlines b @ fst (spread_fills b) @ rest" and
    r: "set rest \<subseteq> {Set_xlabel ''Time'', Set_ylabel ''Price'', Set_title ''Order Flow''}
                        \<union> {c. \<exists>lo hi. c = Set_xlim lo hi}"
    by blast
  have "scatters rest = []"
    using r by (auto simp: scatters_def)
  moreover have "scatters (ask_bars b) = []" "scatters (bid_bars b) = []"
      "scatters (gridlines b) = []"
    by (auto simp: scatters_def ask_bars_def bid_bars_def gridlines_def)
  moreover have "scatters (drawn (draw_book b)) =
      scatters (ask_bars b) @ scatters (bid_bars b) @ scatters (gridlines b)
        @ scatters (fst (spread_fills b)) @ scatters rest"
    unfolding d by (simp add: scatters_def)
  ultimately show ?thesis by (simp add: scatters_fills)
qed

lemma plots_draw_book: "plots (drawn (draw_book b)) = []"
proof -
  from drawn_draw_book [of b] obtain rest where
    d: "drawn (draw_book b)
          = Subplots # ask_bars b @ bid_bars b @ gridlines b @ fst (spread_fills b) @ rest" and
    r: "set rest \<subseteq> {Set_xlabel ''Time'', Set_ylabel ''Price'', Set_title ''Order Flow''}
                        \<union> {c. \<exists>lo hi. c = Set_xlim lo hi}"
    by blast
  have "plots rest = []"
    using r by (auto simp: plots_def)
  moreover have "plots (ask_bars b) = []" "plots (bid_bars b) = []" "plots (gridlines b) = []"
    by (auto simp: plots_def ask_bars_def bid_bars_def gridlines_def)
  moreover have "plots (drawn (draw_book b)) =
      plots (ask_bars b) @ plots (bid_bars b) @ plots (gridlines b)
        @ plots (fst (spread_fills b)) @ plots rest"
    unfolding d by (simp add: plots_def)
  ultimately show ?thesis by (simp add: plots_fills)
qed

section \<open>The outcome of the whole call\<close>

lemma plot_order_flow_failed:
  "prepare bss = Inl e \<Longrightarrow> plot_order_flow bss ps vs bs ss = \<lparr>drawn = [], raised = Some e\<rparr>"
  by (simp add: plot_order_flow_def)

text \<open>
  Once lines 30 to 40 have returned, the commands of the call are those of
  \<open>draw_book\<close>, followed, if nothing was raised, by the trade overlay and the display.
\<close>

lemma plot_order_flow_prepared:
  assumes "prepare bss = Inr b"
  shows "(raised (draw_book b) \<noteq> None \<and> plot_order_flow bss ps vs bs ss = draw_book b)
         \<or> (raised (draw_book b) = None
            \<and> plot_order_flow bss ps vs bs ss
                = \<lparr>drawn = drawn (draw_book b) @ trade_overlay ps vs bs ss @ [Show],
                   raised = None\<rparr>)"
  using assms by (cases "raised (draw_book b)") (simp_all add: plot_order_flow_def)

lemma trade_overlay_no_book_cmds:
  "gridline_prices (trade_overlay ps vs bs ss) = []"
  "bars (trade_overlay ps vs bs ss) = []"
  "fills (trade_overlay ps vs bs ss) = []"
  by (auto simp: trade_overlay_def gridline_prices_def bars_def fills_def Let_def)

lemma gridline_prices_plot:
  assumes "prepare bss = Inr b"
  shows "gridline_prices (drawn (plot_order_flow bss ps vs bs ss)) = prices b"
proof -
  have "gridline_prices (drawn (plot_order_flow bss ps vs bs ss))
          = gridline_prices (drawn (draw_book b))"
    using plot_order_flow_prepared [OF assms, of ps vs bs ss]
    by (auto simp: trade_overlay_no_book_cmds) (simp_all add: gridline_prices_def
          trade_overlay_no_book_cmds [unfolded gridline_prices_def])
  then show ?thesis by (simp add: gridline_prices_draw_book)
qed


lemma fills_plot:
  assumes "prepare bss = Inr b"
  shows "fills (drawn (plot_order_flow bss ps vs bs ss)) = fills (fst (spread_fills b))"
proof -
  have "fills (drawn (plot_order_flow bss ps vs bs ss)) = fills (drawn (draw_book b))"
    using plot_order_flow_prepared [OF assms, of ps vs bs ss]
    by auto (simp_all add: fills_def trade_overlay_no_book_cmds [unfolded fills_def])
  then show ?thesis by (simp add: fills_draw_book)
qed

section \<open>The spread fill\<close>

lemma prices_at_t_map:
  "prices_at_t (map time ds) (map price ds) t = map price (filter (\<lambda>d. time d = t) ds)"
  by (induction ds) (simp_all add: prices_at_t_def)

lemma spread_fill_fits:
  assumes "prepare bss = Inr b"
    and "t \<in> time ` set (ask_data bss) \<inter> time ` set (bid_data bss) \<longrightarrow> \<bar>t\<bar> < float_limit"
  shows "spread_fill b t =
     Inr (if t \<in> time ` set (ask_data bss) \<inter> time ` set (bid_data bss)
          then [Fill_between [t - 1 / 2, t + 1 / 2]
                  (Max (price ` {d \<in> set (bid_data bss). time d = t}))
                  (Min (price ` {d \<in> set (ask_data bss). time d = t}))]
          else [])"
proof -
  have ne: "\<And>ds. (filter (\<lambda>d. time d = t) ds \<noteq> []) = (t \<in> time ` set ds)"
    by (auto simp: filter_empty_conv)
  from prepare_Inr [OF assms(1)] have f:
    "ask_times b = map time (ask_data bss)" "ask_prices b = map price (ask_data bss)"
    "bid_times b = map time (bid_data bss)" "bid_prices b = map price (bid_data bss)"
    by simp_all
  show ?thesis
    using assms(2)
    by (auto simp: spread_fill_def f prices_at_t_map ne Let_def py_add_float_def)
qed

lemma spread_fills_loop_fits:
  assumes "\<forall>t \<in> set ts. spread_fill b t = Inr (if P t then [f t] else [])"
  shows "spread_fills_loop b ts = (map f (filter P ts), None)"
  using assms by (induction ts) simp_all

lemma filter_sort_remdups:
  "filter P (sort (remdups xs)) = sorted_list_of_set {x \<in> set xs. P x}"
proof -
  have "filter P (sort (remdups xs)) = sort (remdups (filter P xs))"
    by (simp add: filter_sort remdups_filter)
  also have "\<dots> = sorted_list_of_set (set (filter P xs))"
    by (rule sorted_list_of_set_sort_remdups [symmetric])
  finally show ?thesis by simp
qed

lemma spread_fills_fits:
  assumes "prepare bss = Inr b"
    and "\<forall>t \<in> time ` set (ask_data bss) \<inter> time ` set (bid_data bss). \<bar>t\<bar> < float_limit"
  shows "spread_fills b =
     (map (\<lambda>t. Fill_between [t - 1 / 2, t + 1 / 2]
              (Max (price ` {d \<in> set (bid_data bss). time d = t}))
              (Min (price ` {d \<in> set (ask_data bss). time d = t})))
       (sorted_list_of_set (time ` set (ask_data bss) \<inter> time ` set (bid_data bss))), None)"
proof -
  have s: "{x \<in> set (map time (ask_data bss) @ map time (bid_data bss)).
             x \<in> time ` set (ask_data bss) \<inter> time ` set (bid_data bss)}
           = time ` set (ask_data bss) \<inter> time ` set (bid_data bss)"
    by auto
  from prepare_Inr [OF assms(1)] have
    u: "unique_times b = sort (remdups (map time (ask_data bss) @ map time (bid_data bss)))"
    by (simp add: unique_times_def)
  have "\<forall>t \<in> set (unique_times b). spread_fill b t =
     Inr (if t \<in> time ` set (ask_data bss) \<inter> time ` set (bid_data bss)
          then [Fill_between [t - 1 / 2, t + 1 / 2]
                  (Max (price ` {d \<in> set (bid_data bss). time d = t}))
                  (Min (price ` {d \<in> set (ask_data bss). time d = t}))]
          else [])"
    using spread_fill_fits [OF assms(1)] assms(2) by blast
  from spread_fills_loop_fits [OF this] show ?thesis
    unfolding spread_fills_def unfolding u filter_sort_remdups s .
qed

lemma fills_map_Fill:
  "fills (map (\<lambda>t. Fill_between (f t) (g t) (h t)) ts) = map (\<lambda>t. (f t, g t, h t)) ts"
  by (induction ts) (simp_all add: fills_def)

text \<open>
  Claim C1, as amended. For every book with at least one ask Level and at least one
  bid Level, a non-zero greatest volume, no int volume beyond the range of a float,
  and no time that has an ask and a bid beyond that range, the filled regions of the
  call are, in ascending order of time, one for each time that occurs both in an ask
  Level and in a bid Level, and none for any other time. The region for \<open>t\<close> spans
  \<open>t - 1/2\<close> to \<open>t + 1/2\<close>; its first bound is the greatest bid price at \<open>t\<close> and
  its second bound the least ask price at \<open>t\<close>, in this order whether or not the
  book is crossed.
\<close>

theorem spread_fill_emitted:
  assumes "ask_data bss \<noteq> []" and "bid_data bss \<noteq> []" and "global_max_volume bss \<noteq> 0"
    and "\<forall>d \<in> set (ask_data bss @ bid_data bss). fits_float (volume d)"
    and "\<forall>t \<in> time ` set (ask_data bss) \<inter> time ` set (bid_data bss). \<bar>t\<bar> < float_limit"
  shows "fills (drawn (plot_order_flow bss ps vs bs ss)) =
           map (\<lambda>t. ([t - 1 / 2, t + 1 / 2],
                     Max (set (map price (filter (\<lambda>d. time d = t) (bid_data bss)))),
                     Min (set (map price (filter (\<lambda>d. time d = t) (ask_data bss))))))
             (sorted_list_of_set (time ` set (ask_data bss) \<inter> time ` set (bid_data bss)))"
proof -
  from prepare_fits [OF assms(1-4)] obtain b where b: "prepare bss = Inr b" ..
  have "fills (drawn (plot_order_flow bss ps vs bs ss)) = fills (fst (spread_fills b))"
    by (rule fills_plot [OF b])
  also have "\<dots> =
           map (\<lambda>t. ([t - 1 / 2, t + 1 / 2],
                     Max (price ` {d \<in> set (bid_data bss). time d = t}),
                     Min (price ` {d \<in> set (ask_data bss). time d = t})))
             (sorted_list_of_set (time ` set (ask_data bss) \<inter> time ` set (bid_data bss)))"
    unfolding spread_fills_fits [OF b assms(5)] fst_conv by (rule fills_map_Fill)
  finally show ?thesis by simp
qed

text \<open>
  On the crossed book the one region is the inverted band from 102 down to 100, and
  time 2, which has no bid, gets none.
\<close>

theorem spread_fill_emitted_witness:
  "ask_data crossed_book \<noteq> [] \<and> bid_data crossed_book \<noteq> []
   \<and> global_max_volume crossed_book \<noteq> 0
   \<and> list_all (\<lambda>d. fits_float (volume d)) (ask_data crossed_book @ bid_data crossed_book)
   \<and> list_all (\<lambda>d. \<bar>time d\<bar> < float_limit) (ask_data crossed_book @ bid_data crossed_book)
   \<and> fills (drawn (plot_order_flow crossed_book None None None None))
       = [([1 / 2, 3 / 2], 102, 100)]"
proof -
  have a: "ask_data crossed_book \<noteq> []" by code_simp
  have b: "bid_data crossed_book \<noteq> []" by code_simp
  have m: "global_max_volume crossed_book \<noteq> 0" by code_simp
  have f: "list_all (\<lambda>d. fits_float (volume d)) (ask_data crossed_book @ bid_data crossed_book)"
    by code_simp
  have t: "list_all (\<lambda>d. \<bar>time d\<bar> < float_limit) (ask_data crossed_book @ bid_data crossed_book)"
    by code_simp
  have f': "\<forall>d \<in> set (ask_data crossed_book @ bid_data crossed_book). fits_float (volume d)"
    using f by (simp only: list_all_iff)
  have t': "\<forall>t \<in> time ` set (ask_data crossed_book) \<inter> time ` set (bid_data crossed_book).
              \<bar>t\<bar> < float_limit"
    using t by (auto simp: list_all_iff)
  have e: "map (\<lambda>t. ([t - 1 / 2, t + 1 / 2],
                     Max (set (map price (filter (\<lambda>d. time d = t) (bid_data crossed_book)))),
                     Min (set (map price (filter (\<lambda>d. time d = t) (ask_data crossed_book))))))
          (sorted_list_of_set
             (time ` set (ask_data crossed_book) \<inter> time ` set (bid_data crossed_book)))
        = [([1 / 2, 3 / 2], 102, 100)]"
    by code_simp
  have "fills (drawn (plot_order_flow crossed_book None None None None))
       = [([1 / 2, 3 / 2], 102, 100)]"
    using spread_fill_emitted [OF a b m f' t', of None None None None] e by simp
  with a b m f t show ?thesis by (intro conjI)
qed

text \<open>
  The claim as first stated asks only for an ask and a bid Level. Each of three books
  has both at its one time and gets no region. With all volumes zero, the division by
  \<open>max_volume\<close> raises \<^verbatim>\<open>ZeroDivisionError\<close>; with the int volume \<open>10^400\<close> beside
  the float volume 1.5, the division of 1.5 by \<open>max_volume\<close> raises
  \<^verbatim>\<open>OverflowError\<close>; both before anything is drawn. At the int time \<open>10^400\<close> the
  bars and gridlines are drawn, and the shift of the time by a half raises
  \<^verbatim>\<open>OverflowError\<close>.
\<close>

theorem spread_fill_missing_counterexample:
  "ask_data zero_volume_book \<noteq> [] \<and> bid_data zero_volume_book \<noteq> []
   \<and> 1 \<in> time ` set (ask_data zero_volume_book)
   \<and> 1 \<in> time ` set (bid_data zero_volume_book)
   \<and> plot_order_flow zero_volume_book None None None None
       = \<lparr>drawn = [], raised = Some ZeroDivisionError\<rparr>
   \<and> ask_data huge_volume_book \<noteq> [] \<and> bid_data huge_volume_book \<noteq> []
   \<and> 1 \<in> time ` set (ask_data huge_volume_book)
   \<and> 1 \<in> time ` set (bid_data huge_volume_book)
   \<and> global_max_volume huge_volume_book \<noteq> 0
   \<and> plot_order_flow huge_volume_book None None None None
       = \<lparr>drawn = [], raised = Some OverflowError\<rparr>
   \<and> ask_data huge_time_book \<noteq> [] \<and> bid_data huge_time_book \<noteq> []
   \<and> of_int huge \<in> time ` set (ask_data huge_time_book)
   \<and> of_int huge \<in> time ` set (bid_data huge_time_book)
   \<and> global_max_volume huge_time_book \<noteq> 0
   \<and> raised (plot_order_flow huge_time_book None None None None) = Some OverflowError
   \<and> fills (drawn (plot_order_flow huge_time_book None None None None)) = []"
  by code_simp

section \<open>The gridlines\<close>

lemma prices_prepared:
  assumes "prepare bss = Inr b"
  shows "prices b = sorted_list_of_set (price ` set (ask_data bss @ bid_data bss))"
proof -
  from prepare_Inr [OF assms]
  have "prices b = sort (remdups (map price (ask_data bss @ bid_data bss)))"
    by (simp add: prices_def)
  also have "\<dots> = sorted_list_of_set (set (map price (ask_data bss @ bid_data bss)))"
    by (rule sorted_list_of_set_sort_remdups [symmetric])
  finally show ?thesis by (simp add: image_Un)
qed

text \<open>
  Claim C3, as amended. For every book with at least one ask Level and at least one
  bid Level, a non-zero greatest volume and no int volume beyond the range of a float,
  the gridlines are drawn at the distinct prices of the ask and bid Levels, each price
  once, in ascending order: the set of gridline prices is the set of those prices,
  with no duplicate and no omission.
\<close>

theorem gridlines_are_distinct_prices:
  assumes "ask_data bss \<noteq> []" and "bid_data bss \<noteq> []" and "global_max_volume bss \<noteq> 0"
    and "\<forall>d \<in> set (ask_data bss @ bid_data bss). fits_float (volume d)"
  shows "gridline_prices (drawn (plot_order_flow bss ps vs bs ss))
           = sorted_list_of_set (price ` set (ask_data bss @ bid_data bss))
         \<and> set (gridline_prices (drawn (plot_order_flow bss ps vs bs ss)))
           = price ` set (ask_data bss @ bid_data bss)
         \<and> distinct (gridline_prices (drawn (plot_order_flow bss ps vs bs ss)))"
proof -
  from prepare_fits [OF assms] obtain b where b: "prepare bss = Inr b" ..
  have "gridline_prices (drawn (plot_order_flow bss ps vs bs ss))
           = sorted_list_of_set (price ` set (ask_data bss @ bid_data bss))"
    by (simp only: gridline_prices_plot [OF b] prices_prepared [OF b])
  then show ?thesis by simp
qed

text \<open>
  On the example book of the specification the gridlines are at 99 and 101. So they
  are at the int time \<open>10^400\<close>, where the call raises only later, in the loop of
  the fills.
\<close>

theorem gridlines_are_distinct_prices_witness:
  "ask_data example_book \<noteq> [] \<and> bid_data example_book \<noteq> []
   \<and> global_max_volume example_book \<noteq> 0
   \<and> list_all (\<lambda>d. fits_float (volume d)) (ask_data example_book @ bid_data example_book)
   \<and> gridline_prices (drawn (plot_order_flow example_book None None None None)) = [99, 101]"
proof -
  have a: "ask_data example_book \<noteq> []" by code_simp
  have b: "bid_data example_book \<noteq> []" by code_simp
  have m: "global_max_volume example_book \<noteq> 0" by code_simp
  have f: "list_all (\<lambda>d. fits_float (volume d)) (ask_data example_book @ bid_data example_book)"
    by code_simp
  have f': "\<forall>d \<in> set (ask_data example_book @ bid_data example_book). fits_float (volume d)"
    using f by (simp only: list_all_iff)
  have s: "sorted_list_of_set (price ` set (ask_data example_book @ bid_data example_book))
             = [99, 101]"
    by code_simp
  have "gridline_prices (drawn (plot_order_flow example_book None None None None)) = [99, 101]"
    using gridlines_are_distinct_prices [OF a b m f', of None None None None] s by simp
  with a b m f show ?thesis by (intro conjI)
qed

text \<open>
  The claim as first stated asks only for an ask and a bid Level: on the book whose
  volumes are all zero, and on the book with the int volume \<open>10^400\<close> beside the
  float volume 1.5, the prices 101 and 99 occur, the call raises before it draws, and
  no gridline is drawn.
\<close>

theorem gridlines_missing_counterexample:
  "ask_data zero_volume_book \<noteq> [] \<and> bid_data zero_volume_book \<noteq> []
   \<and> 101 \<in> price ` set (ask_data zero_volume_book @ bid_data zero_volume_book)
   \<and> 99 \<in> price ` set (ask_data zero_volume_book @ bid_data zero_volume_book)
   \<and> raised (plot_order_flow zero_volume_book None None None None) = Some ZeroDivisionError
   \<and> gridline_prices (drawn (plot_order_flow zero_volume_book None None None None)) = []
   \<and> ask_data huge_volume_book \<noteq> [] \<and> bid_data huge_volume_book \<noteq> []
   \<and> global_max_volume huge_volume_book \<noteq> 0
   \<and> 101 \<in> price ` set (ask_data huge_volume_book @ bid_data huge_volume_book)
   \<and> 99 \<in> price ` set (ask_data huge_volume_book @ bid_data huge_volume_book)
   \<and> raised (plot_order_flow huge_volume_book None None None None) = Some OverflowError
   \<and> gridline_prices (drawn (plot_order_flow huge_volume_book None None None None)) = []"
  by code_simp

section \<open>The bars and the normalised volumes\<close>












section \<open>The trade overlay\<close>






lemma trade_overlay_falsy:
  "\<not> truthy ps \<Longrightarrow> trade_overlay ps vs bs ss = []"
  by (simp add: trade_overlay_def)

text \<open>
  The scatter calls and the line plot are those of the overlay, which is reached on
  the books where the steps before it raise nothing.
\<close>

lemma scatters_drawn:
  "scatters (drawn (plot_order_flow bss ps vs bs ss)) =
     (if valid_book bss then scatters (trade_overlay ps vs bs ss) else [])"
proof (cases "prepare bss")
  case (Inl e)
  then show ?thesis
    by (simp add: valid_book_def plot_order_flow_failed scatters_def)
next
  case (Inr b)
  show ?thesis
  proof (cases "raised (draw_book b)")
    case None
    then show ?thesis
      using Inr scatters_draw_book [of b]
      by (simp add: valid_book_def plot_order_flow_def scatters_def)
  next
    case (Some e)
    then show ?thesis
      using Inr scatters_draw_book [of b]
      by (simp add: valid_book_def plot_order_flow_def)
  qed
qed

lemma plots_drawn:
  "plots (drawn (plot_order_flow bss ps vs bs ss)) =
     (if valid_book bss then plots (trade_overlay ps vs bs ss) else [])"
proof (cases "prepare bss")
  case (Inl e)
  then show ?thesis
    by (simp add: valid_book_def plot_order_flow_failed plots_def)
next
  case (Inr b)
  show ?thesis
  proof (cases "raised (draw_book b)")
    case None
    then show ?thesis
      using Inr plots_draw_book [of b]
      by (simp add: valid_book_def plot_order_flow_def plots_def)
  next
    case (Some e)
    then show ?thesis
      using Inr plots_draw_book [of b]
      by (simp add: valid_book_def plot_order_flow_def)
  qed
qed



lemma zip_take_min:
  assumes "min (length xs) (length ys) = n"
  shows "zip (take n xs) (take n ys) = zip xs ys"
proof -
  have "zip (take n xs) (take n ys) = take n (zip xs ys)"
    by (simp add: take_zip)
  also have "\<dots> = zip xs ys"
    using assms by simp
  finally show ?thesis .
qed

lemma marker_sizes_take:
  "min (length vs) (length fs) = n \<Longrightarrow> marker_sizes (take n vs) (take n fs) = marker_sizes vs fs"
  by (simp add: marker_sizes_def zip_take_min)

text \<open>
  Claim C6, as amended. The function makes no check of the lengths of the trade
  sequences. The sizes of the green markers are computed over
  \<^verbatim>\<open>zip(volumes_sequence, buy_sequence)\<close> and those of the red markers over
  \<^verbatim>\<open>zip(volumes_sequence, sell_sequence)\<close>, so the size list of every scatter call is
  cut to the shorter of its two sequences, whatever the length of \<open>price_sequence\<close>.
  Whenever both lists so cut have the length of \<open>price_sequence\<close>, as when only
  \<open>volumes_sequence\<close> is longer than the other three, the call issues the same
  library calls with the same arguments as the call with the three sequences cut to
  that length: the entries beyond are silently dropped and the mismatch is not
  rejected. The statement says nothing about a call whose size lists have another
  length than \<open>price_sequence\<close>: there the plotting library receives a size list that
  does not match its points, and what it does with it is outside the repository.
\<close>

theorem overlay_lengths_not_checked:
  "(\<forall>(x, y, s, col)
         \<in> set (scatters (drawn (plot_order_flow bss (Some ps) (Some vs) (Some bs) (Some ss)))).
         (col = ''green'' \<and> s = map (\<lambda>(v, b). v * b * 20) (zip vs bs)
            \<and> length s = min (length vs) (length bs))
       \<or> (col = ''red'' \<and> s = map (\<lambda>(v, b). v * b * 20) (zip vs ss)
            \<and> length s = min (length vs) (length ss)))
   \<and> (min (length vs) (length bs) = length ps \<and> min (length vs) (length ss) = length ps \<longrightarrow>
        plot_order_flow bss (Some ps) (Some vs) (Some bs) (Some ss)
          = plot_order_flow bss (Some ps) (Some (take (length ps) vs))
              (Some (take (length ps) bs)) (Some (take (length ps) ss)))"
proof (intro conjI impI)
  have "\<forall>(x, y, s, col)
         \<in> set (scatters (trade_overlay (Some ps) (Some vs) (Some bs) (Some ss))).
         (col = ''green'' \<and> s = map (\<lambda>(v, b). v * b * 20) (zip vs bs)
            \<and> length s = min (length vs) (length bs))
       \<or> (col = ''red'' \<and> s = map (\<lambda>(v, b). v * b * 20) (zip vs ss)
            \<and> length s = min (length vs) (length ss))"
    by (auto simp: trade_overlay_def scatters_def Let_def seq_def marker_sizes_def comp_def
          split_def)
  then show "\<forall>(x, y, s, col)
         \<in> set (scatters (drawn (plot_order_flow bss (Some ps) (Some vs) (Some bs) (Some ss)))).
         (col = ''green'' \<and> s = map (\<lambda>(v, b). v * b * 20) (zip vs bs)
            \<and> length s = min (length vs) (length bs))
       \<or> (col = ''red'' \<and> s = map (\<lambda>(v, b). v * b * 20) (zip vs ss)
            \<and> length s = min (length vs) (length ss))"
    by (simp add: scatters_drawn)
next
  assume h: "min (length vs) (length bs) = length ps \<and> min (length vs) (length ss) = length ps"
  let ?n = "length ps"
  have g: "marker_sizes (take ?n vs) (take ?n bs) = marker_sizes vs bs"
    using h by (simp add: marker_sizes_take)
  have r: "marker_sizes (take ?n vs) (take ?n ss) = marker_sizes vs ss"
    using h by (simp add: marker_sizes_take)
  have t: "trade_overlay (Some ps) (Some (take ?n vs)) (Some (take ?n bs)) (Some (take ?n ss))
             = trade_overlay (Some ps) (Some vs) (Some bs) (Some ss)"
  proof (cases "ps = []")
    case True
    then show ?thesis by (simp add: trade_overlay_def truthy_def)
  next
    case False
    then have "0 < ?n" by simp
    with h have "vs \<noteq> []" "bs \<noteq> []" "ss \<noteq> []" by auto
    with False g r show ?thesis
      by (simp add: trade_overlay_def truthy_def seq_def Let_def)
  qed
  show "plot_order_flow bss (Some ps) (Some vs) (Some bs) (Some ss)
          = plot_order_flow bss (Some ps) (Some (take (length ps) vs))
              (Some (take (length ps) bs)) (Some (take (length ps) ss))"
    unfolding plot_order_flow_def t by (rule refl)
qed

text \<open>
  Two prices, three volumes, two buy flags and two sell flags: the outcome is that of
  the call with the volumes cut to two, which raises nothing and is shown.
\<close>

theorem overlay_lengths_not_checked_witness:
  "min (length [8, 7, 3 :: rat]) (length [1, 0 :: rat]) = length [100, 98 :: rat]
   \<and> min (length [8, 7, 3 :: rat]) (length [0, 1 :: rat]) = length [100, 98 :: rat]
   \<and> plot_order_flow example_book (Some [100, 98]) (Some [8, 7, 3]) (Some [1, 0])
        (Some [0, 1])
       = plot_order_flow example_book (Some [100, 98]) (Some [8, 7]) (Some [1, 0])
           (Some [0, 1])
   \<and> list_all (\<lambda>(x, y, s, col).
         (col = ''green'' \<and> s = map (\<lambda>(v, b). v * b * 20) (zip [8, 7, 3] [1, 0])
            \<and> length s = min (length [8, 7, 3 :: rat]) (length [1, 0 :: rat]))
       \<or> (col = ''red'' \<and> s = map (\<lambda>(v, b). v * b * 20) (zip [8, 7, 3] [0, 1])
            \<and> length s = min (length [8, 7, 3 :: rat]) (length [0, 1 :: rat])))
       (scatters (drawn (plot_order_flow example_book (Some [100, 98]) (Some [8, 7, 3])
          (Some [1, 0]) (Some [0, 1]))))
   \<and> map (\<lambda>(x, y, s, col). (s, col))
       (scatters (drawn (plot_order_flow example_book (Some [100, 98]) (Some [8, 7, 3])
          (Some [1, 0]) (Some [0, 1]))))
       = [([160, 0], ''green''), ([0, 140], ''red'')]"
proof -
  have 1: "min (length [8, 7, 3 :: rat]) (length [1, 0 :: rat]) = length [100, 98 :: rat]"
    by simp
  have 2: "min (length [8, 7, 3 :: rat]) (length [0, 1 :: rat]) = length [100, 98 :: rat]"
    by simp
  have k: "take (length [100, 98 :: rat]) [8, 7, 3 :: rat] = [8, 7]"
      "take (length [100, 98 :: rat]) [1, 0 :: rat] = [1, 0]"
      "take (length [100, 98 :: rat]) [0, 1 :: rat] = [0, 1]"
    by simp_all
  note t = overlay_lengths_not_checked [of example_book "[100, 98]" "[8, 7, 3]" "[1, 0]" "[0, 1]"]
  from t 1 2 have 3: "plot_order_flow example_book (Some [100, 98]) (Some [8, 7, 3])
        (Some [1, 0]) (Some [0, 1])
       = plot_order_flow example_book (Some [100, 98]) (Some [8, 7]) (Some [1, 0])
           (Some [0, 1])"
    unfolding k by blast
  from t have 4: "list_all (\<lambda>(x, y, s, col).
         (col = ''green'' \<and> s = map (\<lambda>(v, b). v * b * 20) (zip [8, 7, 3] [1, 0])
            \<and> length s = min (length [8, 7, 3 :: rat]) (length [1, 0 :: rat]))
       \<or> (col = ''red'' \<and> s = map (\<lambda>(v, b). v * b * 20) (zip [8, 7, 3] [0, 1])
            \<and> length s = min (length [8, 7, 3 :: rat]) (length [0, 1 :: rat])))
       (scatters (drawn (plot_order_flow example_book (Some [100, 98]) (Some [8, 7, 3])
          (Some [1, 0]) (Some [0, 1]))))"
    unfolding list_all_iff by (rule conjunct1)
  have 5: "map (\<lambda>(x, y, s, col). (s, col))
       (scatters (drawn (plot_order_flow example_book (Some [100, 98]) (Some [8, 7, 3])
          (Some [1, 0]) (Some [0, 1]))))
       = [([160, 0], ''green''), ([0, 140], ''red'')]"
    by code_simp
  from 1 2 3 4 5 show ?thesis by (intro conjI)
qed

text \<open>
  The claim as first stated: a volume sequence of three entries against two prices is
  not rejected. Nothing is raised, the chart is shown, and the third volume is
  silently left out of the marker sizes.
\<close>

theorem mismatched_overlay_counterexample:
  "length [8, 7, 3 :: rat] \<noteq> length [100, 98 :: rat]
   \<and> raised (plot_order_flow example_book (Some [100, 98]) (Some [8, 7, 3]) (Some [1, 0])
        (Some [0, 1])) = None
   \<and> scatters (drawn (plot_order_flow example_book (Some [100, 98]) (Some [8, 7, 3])
        (Some [1, 0]) (Some [0, 1])))
       = [([1, 2], [100, 98], [160, 0], ''green''), ([1, 2], [100, 98], [0, 140], ''red'')]
   \<and> last (drawn (plot_order_flow example_book (Some [100, 98]) (Some [8, 7, 3])
        (Some [1, 0]) (Some [0, 1]))) = Show"
  by code_simp

text \<open>
  Claim C10. An empty \<open>price_sequence\<close> gives the same outcome as \<^verbatim>\<open>None\<close>, whatever
  the other three sequences are: the same as the call with no trade sequence at all,
  with no line plot and no scatter call, and so with no exception of its own.
\<close>

theorem empty_price_sequence_like_None:
  "plot_order_flow bss (Some []) vs bs ss = plot_order_flow bss None vs bs ss
   \<and> plot_order_flow bss (Some []) vs bs ss = plot_order_flow bss None None None None
   \<and> plots (drawn (plot_order_flow bss (Some []) vs bs ss)) = []
   \<and> scatters (drawn (plot_order_flow bss (Some []) vs bs ss)) = []"
proof -
  have e: "plot_order_flow bss p vs bs ss = plot_order_flow bss None None None None"
    if "\<not> truthy p" for p
  proof -
    have t: "trade_overlay p vs bs ss = trade_overlay None None None None"
      using that by (simp add: trade_overlay_def truthy_def)
    show ?thesis
      unfolding plot_order_flow_def t by (rule refl)
  qed
  have f: "\<not> truthy (Some ([]::rat list))" "\<not> truthy (None::rat list option)"
    by (simp_all add: truthy_def)
  show ?thesis
    by (simp add: e [OF f(1)] e [OF f(2)] plots_drawn scatters_drawn trade_overlay_falsy f)
       (simp add: plots_def scatters_def)
qed

section \<open>Invalid input\<close>

lemma ask_data_concat: "ask_data bss = filter (\<lambda>item. side item = ''ask'') (concat bss)"
  by (simp add: ask_data_def filter_concat)

lemma bid_data_concat: "bid_data bss = filter (\<lambda>item. side item = ''bid'') (concat bss)"
  by (simp add: bid_data_def filter_concat)

text \<open>
  Claim C5, as amended. On every invalid input the call fails before any drawing
  occurs, no command is issued and nothing is shown; but the exception is the one of
  the failing statement, not a validation error. An empty \<open>book_state_sequence\<close>, and
  one with no ask Level or no bid Level anywhere, fails with the \<^verbatim>\<open>ValueError\<close> of
  the tuple unpacking of lines 34 and 35. One with both sides present where every
  Level has volume zero fails with the \<^verbatim>\<open>ZeroDivisionError\<close> of line 39.
\<close>

theorem invalid_input_low_level_fault:
  "(bss = [] \<or> ask_data bss = [] \<or> bid_data bss = [] \<longrightarrow>
      plot_order_flow bss ps vs bs ss = \<lparr>drawn = [], raised = Some UnpackValueError\<rparr>)
   \<and> (ask_data bss \<noteq> [] \<and> bid_data bss \<noteq> []
        \<and> (\<forall>d \<in> set (concat bss). num_val (volume d) = 0) \<longrightarrow>
      plot_order_flow bss ps vs bs ss = \<lparr>drawn = [], raised = Some ZeroDivisionError\<rparr>)"
proof (intro conjI impI)
  assume "bss = [] \<or> ask_data bss = [] \<or> bid_data bss = []"
  then have "ask_data bss = [] \<or> bid_data bss = []"
    by (auto simp: ask_data_def)
  then have "prepare bss = Inl UnpackValueError"
    using prepare_no_asks prepare_no_bids by blast
  then show "plot_order_flow bss ps vs bs ss = \<lparr>drawn = [], raised = Some UnpackValueError\<rparr>"
    by (rule plot_order_flow_failed)
next
  assume h: "ask_data bss \<noteq> [] \<and> bid_data bss \<noteq> []
               \<and> (\<forall>d \<in> set (concat bss). num_val (volume d) = 0)"
  then have "\<forall>d \<in> set (ask_data bss @ bid_data bss). num_val (volume d) = 0"
    by (auto simp: ask_data_concat bid_data_concat)
  with h have "prepare bss = Inl ZeroDivisionError"
    by (intro prepare_zero) simp_all
  then show "plot_order_flow bss ps vs bs ss = \<lparr>drawn = [], raised = Some ZeroDivisionError\<rparr>"
    by (rule plot_order_flow_failed)
qed

text \<open>The empty sequence, and the book whose volumes are all zero.\<close>

theorem invalid_input_low_level_fault_witness:
  "plot_order_flow [] None None None None = \<lparr>drawn = [], raised = Some UnpackValueError\<rparr>
   \<and> ask_data zero_volume_book \<noteq> [] \<and> bid_data zero_volume_book \<noteq> []
   \<and> list_all (\<lambda>d. num_val (volume d) = 0) (concat zero_volume_book)
   \<and> plot_order_flow zero_volume_book None None None None
       = \<lparr>drawn = [], raised = Some ZeroDivisionError\<rparr>"
proof -
  have 1: "plot_order_flow [] None None None None
             = \<lparr>drawn = [], raised = Some UnpackValueError\<rparr>"
    using invalid_input_low_level_fault [of "[]" None None None None] by simp
  have a: "ask_data zero_volume_book \<noteq> []" by code_simp
  have b: "bid_data zero_volume_book \<noteq> []" by code_simp
  have z: "\<forall>d \<in> set (concat zero_volume_book). num_val (volume d) = 0" by code_simp
  have z': "list_all (\<lambda>d. num_val (volume d) = 0) (concat zero_volume_book)"
    using z by (simp only: list_all_iff)
  have 2: "plot_order_flow zero_volume_book None None None None
             = \<lparr>drawn = [], raised = Some ZeroDivisionError\<rparr>"
    using invalid_input_low_level_fault [of zero_volume_book None None None None] a b z
    by blast
  from 1 a b z' 2 show ?thesis by (intro conjI)
qed

text \<open>
  The claim as first stated: the failing example of the specification, a book with no
  bid side, does not fail with an error of an \<^verbatim>\<open>InvalidInput\<close> class. What reaches
  the caller is the unpacking fault itself.
\<close>

theorem missing_side_counterexample:
  "bid_data ask_only_book = []
   \<and> plot_order_flow ask_only_book None None None None
       = \<lparr>drawn = [], raised = Some UnpackValueError\<rparr>"
  by code_simp

section \<open>What the outcome depends on\<close>

lemma plot_order_flow_cong:
  assumes "ask_data bss = ask_data bss'" and "bid_data bss = bid_data bss'"
  shows "prepare bss = prepare bss'"
    and "plot_order_flow bss ps vs bs ss = plot_order_flow bss' ps vs bs ss"
  unfolding plot_order_flow_def prepare_def assms by (rule refl)+

text \<open>
  Claim C8. Two values of \<open>book_state_sequence\<close> whose Levels, concatenated in order,
  are the same list give the same ask and bid lists, the same local variables
  (times, prices, volumes, \<open>max_volume\<close>, normalised volumes) or the same exception,
  and the same outcome of the call: the same commands in the same order.
\<close>

theorem grouping_into_snapshots_irrelevant:
  assumes "concat bss = concat bss'"
  shows "ask_data bss = ask_data bss' \<and> bid_data bss = bid_data bss'
         \<and> prepare bss = prepare bss'
         \<and> plot_order_flow bss ps vs bs ss = plot_order_flow bss' ps vs bs ss"
proof -
  have "ask_data bss = ask_data bss'" "bid_data bss = bid_data bss'"
    using assms by (simp_all add: ask_data_concat bid_data_concat)
  then show ?thesis
    using plot_order_flow_cong by blast
qed

text \<open>The example book, and its four Levels in one snapshot.\<close>

theorem grouping_into_snapshots_irrelevant_witness:
  "concat example_book = concat [concat example_book]
   \<and> example_book \<noteq> [concat example_book]
   \<and> plot_order_flow example_book None None None None
       = plot_order_flow [concat example_book] None None None None"
proof -
  have c: "concat example_book = concat [concat example_book]" by simp
  have d: "example_book \<noteq> [concat example_book]" by (simp add: example_book_def)
  from grouping_into_snapshots_irrelevant [OF c, of None None None None] c d
  show ?thesis by (intro conjI) (simp_all only: simp_thms)
qed

lemma filter_ask_drop:
  "filter (\<lambda>item. side item = ''ask'')
     (filter (\<lambda>item. side item = ''ask'' \<or> side item = ''bid'') xs)
   = filter (\<lambda>item. side item = ''ask'') xs"
  by (induction xs) simp_all

lemma filter_bid_drop:
  "filter (\<lambda>item. side item = ''bid'')
     (filter (\<lambda>item. side item = ''ask'' \<or> side item = ''bid'') xs)
   = filter (\<lambda>item. side item = ''bid'') xs"
  by (induction xs) simp_all

text \<open>
  Claim C9. Removing from every snapshot the Levels whose side tag is neither
  \<^verbatim>\<open>'ask'\<close> nor \<^verbatim>\<open>'bid'\<close> changes nothing: the ask and bid lists, the local
  variables (with \<open>max_volume\<close>) or the exception of lines 30 to 40, and the outcome
  of the call are the same. Such a Level adds no bar, no gridline, no fill and no
  exception.
\<close>

theorem other_sides_dropped:
  "ask_data (map (filter (\<lambda>item. side item = ''ask'' \<or> side item = ''bid'')) bss)
     = ask_data bss
   \<and> bid_data (map (filter (\<lambda>item. side item = ''ask'' \<or> side item = ''bid'')) bss)
     = bid_data bss
   \<and> prepare (map (filter (\<lambda>item. side item = ''ask'' \<or> side item = ''bid'')) bss)
     = prepare bss
   \<and> plot_order_flow (map (filter (\<lambda>item. side item = ''ask'' \<or> side item = ''bid'')) bss)
       ps vs bs ss
     = plot_order_flow bss ps vs bs ss"
proof -
  let ?bss' = "map (filter (\<lambda>item. side item = ''ask'' \<or> side item = ''bid'')) bss"
  have a: "ask_data ?bss' = ask_data bss"
    unfolding ask_data_def map_map comp_def filter_ask_drop by (rule refl)
  have b: "bid_data ?bss' = bid_data bss"
    unfolding bid_data_def map_map comp_def filter_bid_drop by (rule refl)
  show ?thesis
    using a b plot_order_flow_cong [OF a b] by (intro conjI)
qed

text \<open>
  The example book with a Level tagged \<^verbatim>\<open>'Ask'\<close> (volume 1000, price 500, time 7)
  and a Level with an empty tag: the outcome is that of the example book, with
  \<open>max_volume\<close> 5 and gridlines at 99 and 101 only.
\<close>

theorem other_sides_dropped_witness:
  "map (filter (\<lambda>item. side item = ''ask'' \<or> side item = ''bid'')) mixed_book = example_book
   \<and> plot_order_flow mixed_book None None None None
       = plot_order_flow example_book None None None None
   \<and> raised (plot_order_flow mixed_book None None None None) = None
   \<and> gridline_prices (drawn (plot_order_flow mixed_book None None None None)) = [99, 101]"
proof -
  have m: "map (filter (\<lambda>item. side item = ''ask'' \<or> side item = ''bid'')) mixed_book
             = example_book"
    by code_simp
  have e: "plot_order_flow mixed_book None None None None
             = plot_order_flow example_book None None None None"
    using other_sides_dropped [of mixed_book None None None None] unfolding m by simp
  have r: "raised (plot_order_flow example_book None None None None) = None" by code_simp
  have g: "gridline_prices (drawn (plot_order_flow example_book None None None None))
             = [99, 101]"
    by code_simp
  from m e r g show ?thesis by (simp only: simp_thms)
qed

end
